theory Spec2Isabelle
  imports Main "HOL-Library.Word" "HOL-Library.AList"
begin

section \<open>TaskFlow API: a shallow embedding of main.py\<close>

text \<open>
  The service is a FastAPI application over one MongoDB collection. Each handler of
  main.py is a function from its arguments and the collection to a result and the
  collection afterwards. What the environment decides is an argument: the reading of
  the clock (\<open>datetime.utcnow().isoformat()\<close>, a string) and the object id the driver
  generates for an inserted document. An exception is the \<open>Inl\<close> of a sum.
  One \<open>char\<close> stands for one character of a Python \<open>str\<close>, so \<open>length\<close> counts what
  \<open>min_length\<close> and \<open>max_length\<close> count.
\<close>

subsection \<open>Values, documents, errors\<close>

text \<open>A bson \<open>ObjectId\<close> is twelve bytes: 96 bits.\<close>

type_synonym object_id = "96 word"

text \<open>The values of a stored document and of the dict a handler returns.\<close>

datatype bson = BNull | BStr string | BOid object_id

text \<open>The values of a JSON request body, as far as the field types tell them apart.\<close>

datatype json = JNull | JStr string | JInt int | JBool bool

text \<open>A Python dict with string keys, in insertion order; the keys are distinct.\<close>

type_synonym document = "(string \<times> bson) list"

type_synonym payload = "string \<Rightarrow> json option"

datatype error =
    HTTPException nat string
  | RequestValidationError
  | ResponseValidationError
  | DuplicateKeyError
  | KeyError string
  | TypeError
  | InvalidId

subsection \<open>bson.ObjectId\<close>

text \<open>
  \<open>str(oid)\<close> is the 24 lower-case hexadecimal digits of the twelve bytes.
  \<open>ObjectId(s)\<close> accepts a string of 24 hexadecimal digits of either case and raises
  \<open>InvalidId\<close> otherwise; \<open>ObjectId.is_valid(s)\<close> is False on the empty string and
  otherwise tells whether \<open>ObjectId(s)\<close> raises.
\<close>

definition hexchar :: "nat \<Rightarrow> char" where
  "hexchar n = ''0123456789abcdef'' ! n"

definition hexval :: "char \<Rightarrow> nat option" where
  "hexval c =
     (let n = (of_char c :: nat) in
      if 48 \<le> n \<and> n \<le> 57 then Some (n - 48)
      else if 97 \<le> n \<and> n \<le> 102 then Some (n - 87)
      else if 65 \<le> n \<and> n \<le> 70 then Some (n - 55)
      else None)"

fun hexlify :: "nat \<Rightarrow> nat \<Rightarrow> string" where
  "hexlify 0 n = []"
| "hexlify (Suc k) n = hexlify k (n div 16) @ [hexchar (n mod 16)]"

fun fromhex :: "string \<Rightarrow> nat \<Rightarrow> nat option" where
  "fromhex [] acc = Some acc"
| "fromhex (c # cs) acc =
     (case hexval c of None \<Rightarrow> None | Some d \<Rightarrow> fromhex cs (16 * acc + d))"

definition str_oid :: "object_id \<Rightarrow> string" where
  "str_oid oid = hexlify 24 (unat oid)"

definition ObjectId :: "string \<Rightarrow> error + object_id" where
  "ObjectId s =
     (if length s = 24
      then (case fromhex s 0 of None \<Rightarrow> Inl InvalidId | Some n \<Rightarrow> Inr (word_of_nat n))
      else Inl InvalidId)"

definition is_valid :: "string \<Rightarrow> bool" where
  "is_valid s = (if s = [] then False else (case ObjectId s of Inl _ \<Rightarrow> False | Inr _ \<Rightarrow> True))"

text \<open>\<open>str(v)\<close> of a stored value, for \<open>str(task["_id"])\<close>.\<close>

fun str :: "bson \<Rightarrow> string" where
  "str (BOid oid) = str_oid oid"
| "str (BStr s) = s"
| "str BNull = ''None''"

subsection \<open>The collection and the driver's calls\<close>

text \<open>
  \<open>tasks_collection\<close> is the list of its documents in insertion order, together with
  the calls the service has made to it so far: a handler that returns before it reaches
  the store leaves \<open>calls\<close> as it was.
\<close>

datatype store_call =
    Find
  | FindOne object_id
  | InsertOne document
  | UpdateOne object_id document
  | DeleteOne object_id

record collection =
  docs :: "document list"
  calls :: "store_call list"

definition empty_collection :: collection where
  "empty_collection = \<lparr>docs = [], calls = []\<rparr>"

definition called :: "store_call \<Rightarrow> collection \<Rightarrow> collection" where
  "called op c = c\<lparr>calls := calls c @ [op]\<rparr>"

text \<open>The filter \<open>{"_id": oid}\<close>.\<close>

definition has_id :: "object_id \<Rightarrow> document \<Rightarrow> bool" where
  "has_id oid d = (map_of d ''_id'' = Some (BOid oid))"

definition find_all :: "collection \<Rightarrow> document list \<times> collection" where
  "find_all c = (docs c, called Find c)"

definition find_one :: "object_id \<Rightarrow> collection \<Rightarrow> document option \<times> collection" where
  "find_one oid c = (find (has_id oid) (docs c), called (FindOne oid) c)"

text \<open>
  \<open>insert_one(d)\<close>: the driver gives a document without \<open>_id\<close> a new object id,
  \<open>new_id\<close>; the unique index on \<open>_id\<close> refuses an id the collection already has.
\<close>

definition insert_one ::
  "object_id \<Rightarrow> document \<Rightarrow> collection \<Rightarrow> (error + object_id) \<times> collection" where
  "insert_one new_id d c =
     (case find (has_id new_id) (docs c) of
        Some _ \<Rightarrow> (Inl DuplicateKeyError, called (InsertOne d) c)
      | None \<Rightarrow>
          (Inr new_id, (called (InsertOne d) c)\<lparr>docs := docs c @ [(''_id'', BOid new_id) # d]\<rparr>))"

text \<open>The operator \<open>$set\<close>: each field of \<open>u\<close> replaces the document's or is added to it.\<close>

definition set_fields :: "document \<Rightarrow> document \<Rightarrow> document" where
  "set_fields u d = fold (\<lambda>(k, v). AList.update k v) u d"

fun update_first :: "object_id \<Rightarrow> document \<Rightarrow> document list \<Rightarrow> document list" where
  "update_first oid u [] = []"
| "update_first oid u (d # ds) =
     (if has_id oid d then set_fields u d # ds else d # update_first oid u ds)"

fun delete_first :: "object_id \<Rightarrow> document list \<Rightarrow> document list" where
  "delete_first oid [] = []"
| "delete_first oid (d # ds) = (if has_id oid d then ds else d # delete_first oid ds)"

text \<open>\<open>update_one({"_id": oid}, {"$set": u})\<close>, returning \<open>matched_count\<close>.\<close>

definition update_one :: "object_id \<Rightarrow> document \<Rightarrow> collection \<Rightarrow> nat \<times> collection" where
  "update_one oid u c =
     (case find (has_id oid) (docs c) of
        None \<Rightarrow> (0, called (UpdateOne oid u) c)
      | Some _ \<Rightarrow> (1, (called (UpdateOne oid u) c)\<lparr>docs := update_first oid u (docs c)\<rparr>))"

text \<open>\<open>delete_one({"_id": oid})\<close>, returning \<open>deleted_count\<close>.\<close>

definition delete_one :: "object_id \<Rightarrow> collection \<Rightarrow> nat \<times> collection" where
  "delete_one oid c =
     (case find (has_id oid) (docs c) of
        None \<Rightarrow> (0, called (DeleteOne oid) c)
      | Some _ \<Rightarrow> (1, (called (DeleteOne oid) c)\<lparr>docs := delete_first oid (docs c)\<rparr>))"

subsection \<open>The pydantic models\<close>

text \<open>
  A model is a record of its validated fields; its validator reads the JSON body as
  the model's field declarations say and gives the record or a validation error.
\<close>

record TaskBase =
  title :: string
  description :: "string option"
  deadline :: "string option"
  status :: string

type_synonym TaskCreate = TaskBase

text \<open>
  \<open>TaskUpdate\<close>: every field is \<open>Optional\<close> with default \<open>None\<close>; \<open>fields_set\<close> are
  the names of the fields the request body gave, which \<open>exclude_unset\<close> reads.
\<close>

record TaskUpdate =
  title :: "string option"
  description :: "string option"
  deadline :: "string option"
  status :: "string option"
  fields_set :: "string list"

record TaskResponse = TaskBase +
  id' :: string
  created_at :: string
  last_updated :: string

text \<open>
  The constraints of the \<open>Field\<close> declarations: \<open>min_length=1, max_length=200\<close> on the
  title, and \<open>pattern="^(done|pending|not-done|dropped)$"\<close> on the status, which the
  whole string has to match, from its first character to its last.
\<close>

definition title_length :: "string \<Rightarrow> bool" where
  "title_length t = (1 \<le> length t \<and> length t \<le> 200)"

definition status_pattern :: "string \<Rightarrow> bool" where
  "status_pattern s = (s = ''done'' \<or> s = ''pending'' \<or> s = ''not-done'' \<or> s = ''dropped'')"

definition unconstrained :: "string \<Rightarrow> bool" where
  "unconstrained s = True"

text \<open>
  A field \<open>Optional[str]\<close> with default \<open>None\<close> and a constraint on the string: absent
  and \<open>null\<close> both give \<open>None\<close>; a value that is not a string, or a string that breaks
  the constraint, is a validation error (status 422).
\<close>

fun optional_str :: "(string \<Rightarrow> bool) \<Rightarrow> json option \<Rightarrow> error + string option" where
  "optional_str ok None = Inr None"
| "optional_str ok (Some JNull) = Inr None"
| "optional_str ok (Some (JStr s)) = (if ok s then Inr (Some s) else Inl RequestValidationError)"
| "optional_str ok (Some (JInt i)) = Inl RequestValidationError"
| "optional_str ok (Some (JBool b)) = Inl RequestValidationError"

text \<open>The field \<open>title: str = Field(..., min_length=1, max_length=200)\<close>: required.\<close>

fun required_title :: "json option \<Rightarrow> error + string" where
  "required_title (Some (JStr t)) = (if title_length t then Inr t else Inl RequestValidationError)"
| "required_title other = Inl RequestValidationError"

text \<open>The field \<open>status: str = Field(default="not-done", pattern=...)\<close>.\<close>

fun defaulted_status :: "json option \<Rightarrow> error + string" where
  "defaulted_status None = Inr ''not-done''"
| "defaulted_status (Some (JStr s)) = (if status_pattern s then Inr s else Inl RequestValidationError)"
| "defaulted_status (Some other) = Inl RequestValidationError"

definition validate_TaskCreate :: "payload \<Rightarrow> error + TaskCreate" where
  "validate_TaskCreate body =
     (case required_title (body ''title'') of Inl e \<Rightarrow> Inl e | Inr t \<Rightarrow>
      (case optional_str unconstrained (body ''description'') of Inl e \<Rightarrow> Inl e | Inr de \<Rightarrow>
       (case optional_str unconstrained (body ''deadline'') of Inl e \<Rightarrow> Inl e | Inr dl \<Rightarrow>
        (case defaulted_status (body ''status'') of Inl e \<Rightarrow> Inl e | Inr st \<Rightarrow>
           Inr \<lparr>TaskBase.title = t, description = de, deadline = dl, status = st\<rparr>))))"

definition field_names :: "string list" where
  "field_names = [''title'', ''description'', ''deadline'', ''status'']"

definition validate_TaskUpdate :: "payload \<Rightarrow> error + TaskUpdate" where
  "validate_TaskUpdate body =
     (case optional_str title_length (body ''title'') of Inl e \<Rightarrow> Inl e | Inr t \<Rightarrow>
      (case optional_str unconstrained (body ''description'') of Inl e \<Rightarrow> Inl e | Inr de \<Rightarrow>
       (case optional_str unconstrained (body ''deadline'') of Inl e \<Rightarrow> Inl e | Inr dl \<Rightarrow>
        (case optional_str status_pattern (body ''status'') of Inl e \<Rightarrow> Inl e | Inr st \<Rightarrow>
           Inr \<lparr>TaskUpdate.title = t, description = de, deadline = dl, status = st,
                fields_set = filter (\<lambda>k. body k \<noteq> None) field_names\<rparr>))))"

text \<open>\<open>task_update.dict(exclude_unset=True)\<close>: the fields that were set, in field order.\<close>

definition dict_exclude_unset :: "TaskUpdate \<Rightarrow> (string \<times> string option) list" where
  "dict_exclude_unset u =
     filter (\<lambda>(k, v). k \<in> set (fields_set u))
       [(''title'', TaskUpdate.title u), (''description'', TaskUpdate.description u),
        (''deadline'', TaskUpdate.deadline u), (''status'', TaskUpdate.status u)]"

text \<open>\<open>{k: v for k, v in task_update.dict(exclude_unset=True).items() if v is not None}\<close>\<close>

definition update_dict :: "TaskUpdate \<Rightarrow> document" where
  "update_dict u =
     List.map_filter (\<lambda>(k, v). map_option (\<lambda>s. (k, BStr s)) v) (dict_exclude_unset u)"

text \<open>The response model: the seven fields of a task, checked as \<open>TaskBase\<close> checks them.\<close>

fun optional_bson :: "bson option \<Rightarrow> error + string option" where
  "optional_bson None = Inr None"
| "optional_bson (Some BNull) = Inr None"
| "optional_bson (Some (BStr s)) = Inr (Some s)"
| "optional_bson (Some (BOid oid)) = Inl ResponseValidationError"

fun required_bson :: "(string \<Rightarrow> bool) \<Rightarrow> bson option \<Rightarrow> error + string" where
  "required_bson ok (Some (BStr s)) = (if ok s then Inr s else Inl ResponseValidationError)"
| "required_bson ok other = Inl ResponseValidationError"

fun defaulted_bson :: "bson option \<Rightarrow> error + string" where
  "defaulted_bson None = Inr ''not-done''"
| "defaulted_bson (Some (BStr s)) = (if status_pattern s then Inr s else Inl ResponseValidationError)"
| "defaulted_bson (Some other) = Inl ResponseValidationError"

definition validate_TaskResponse :: "document \<Rightarrow> error + TaskResponse" where
  "validate_TaskResponse r =
     (case required_bson title_length (map_of r ''title'') of Inl e \<Rightarrow> Inl e | Inr t \<Rightarrow>
      (case optional_bson (map_of r ''description'') of Inl e \<Rightarrow> Inl e | Inr de \<Rightarrow>
       (case optional_bson (map_of r ''deadline'') of Inl e \<Rightarrow> Inl e | Inr dl \<Rightarrow>
        (case defaulted_bson (map_of r ''status'') of Inl e \<Rightarrow> Inl e | Inr st \<Rightarrow>
         (case required_bson unconstrained (map_of r ''_id'') of Inl e \<Rightarrow> Inl e | Inr i \<Rightarrow>
          (case required_bson unconstrained (map_of r ''created_at'') of Inl e \<Rightarrow> Inl e | Inr ca \<Rightarrow>
           (case required_bson unconstrained (map_of r ''last_updated'') of Inl e \<Rightarrow> Inl e | Inr lu \<Rightarrow>
              Inr \<lparr>TaskBase.title = t, description = de, deadline = dl, status = st,
                   id' = i, created_at = ca, last_updated = lu\<rparr>)))))))"

subsection \<open>The handlers\<close>

text \<open>\<open>task[k]\<close> raises \<open>KeyError\<close> on a missing key; \<open>task.get(k)\<close> gives \<open>None\<close>.\<close>

definition dict_get :: "document \<Rightarrow> string \<Rightarrow> bson" where
  "dict_get task k = (case map_of task k of None \<Rightarrow> BNull | Some v \<Rightarrow> v)"

definition task_helper :: "document \<Rightarrow> error + document" where
  "task_helper task =
     (case map_of task ''_id'' of None \<Rightarrow> Inl (KeyError ''_id'') | Some i \<Rightarrow>
      (case map_of task ''title'' of None \<Rightarrow> Inl (KeyError ''title'') | Some t \<Rightarrow>
       (case map_of task ''status'' of None \<Rightarrow> Inl (KeyError ''status'') | Some st \<Rightarrow>
        (case map_of task ''created_at'' of None \<Rightarrow> Inl (KeyError ''created_at'') | Some ca \<Rightarrow>
         (case map_of task ''last_updated'' of None \<Rightarrow> Inl (KeyError ''last_updated'') | Some lu \<Rightarrow>
            Inr [(''_id'', BStr (str i)),
                 (''title'', t),
                 (''description'', dict_get task ''description''),
                 (''deadline'', dict_get task ''deadline''),
                 (''status'', st),
                 (''created_at'', ca),
                 (''last_updated'', lu)])))))"

text \<open>The loop of \<open>get_tasks\<close>: the first document that does not serialize ends it.\<close>

fun task_helpers :: "document list \<Rightarrow> error + document list" where
  "task_helpers [] = Inr []"
| "task_helpers (task # rest) =
     (case task_helper task of Inl e \<Rightarrow> Inl e | Inr r \<Rightarrow>
      (case task_helpers rest of Inl e \<Rightarrow> Inl e | Inr rs \<Rightarrow> Inr (r # rs)))"

definition get_tasks :: "collection \<Rightarrow> (error + document list) \<times> collection" where
  "get_tasks c = (case find_all c of (found, c1) \<Rightarrow> (task_helpers found, c1))"

definition get_task :: "string \<Rightarrow> collection \<Rightarrow> (error + document) \<times> collection" where
  "get_task task_id c =
     (if \<not> is_valid task_id then (Inl (HTTPException 400 ''Invalid task ID format''), c)
      else (case ObjectId task_id of Inl e \<Rightarrow> (Inl e, c) | Inr oid \<Rightarrow>
        (case find_one oid c of (task, c1) \<Rightarrow>
          (case task of
             None \<Rightarrow> (Inl (HTTPException 404 ''Task not found''), c1)
           | Some t \<Rightarrow>
               if t \<noteq> [] then (task_helper t, c1)
               else (Inl (HTTPException 404 ''Task not found''), c1)))))"

definition create_task ::
  "string \<Rightarrow> object_id \<Rightarrow> TaskCreate \<Rightarrow> collection \<Rightarrow> (error + document) \<times> collection" where
  "create_task now new_id task c =
     (let task_dict =
            [(''title'', BStr (TaskBase.title task)),
             (''description'', (case TaskBase.description task of None \<Rightarrow> BNull | Some s \<Rightarrow> BStr s)),
             (''deadline'', (case TaskBase.deadline task of None \<Rightarrow> BNull | Some s \<Rightarrow> BStr s)),
             (''status'', BStr (TaskBase.status task)),
             (''created_at'', BStr now),
             (''last_updated'', BStr now)]
      in (case insert_one new_id task_dict c of (result, c1) \<Rightarrow>
        (case result of Inl e \<Rightarrow> (Inl e, c1) | Inr inserted_id \<Rightarrow>
          (case find_one inserted_id c1 of (created_task, c2) \<Rightarrow>
            (case created_task of
               None \<Rightarrow> (Inl TypeError, c2)
             | Some t \<Rightarrow> (task_helper t, c2))))))"

definition update_task ::
  "string \<Rightarrow> string \<Rightarrow> TaskUpdate \<Rightarrow> collection \<Rightarrow> (error + document) \<times> collection" where
  "update_task now task_id task_update c =
     (if \<not> is_valid task_id then (Inl (HTTPException 400 ''Invalid task ID format''), c)
      else if update_dict task_update = [] then (Inl (HTTPException 400 ''No fields to update''), c)
      else (let update_dict' = AList.update ''last_updated'' (BStr now) (update_dict task_update)
        in (case ObjectId task_id of Inl e \<Rightarrow> (Inl e, c) | Inr oid \<Rightarrow>
          (case update_one oid update_dict' c of (matched_count, c1) \<Rightarrow>
            if matched_count = 0 then (Inl (HTTPException 404 ''Task not found''), c1)
            else (case find_one oid c1 of (updated_task, c2) \<Rightarrow>
              (case updated_task of
                 None \<Rightarrow> (Inl TypeError, c2)
               | Some t \<Rightarrow> (task_helper t, c2)))))))"

definition delete_task :: "string \<Rightarrow> collection \<Rightarrow> (error + document) \<times> collection" where
  "delete_task task_id c =
     (if \<not> is_valid task_id then (Inl (HTTPException 400 ''Invalid task ID format''), c)
      else (case ObjectId task_id of Inl e \<Rightarrow> (Inl e, c) | Inr oid \<Rightarrow>
        (case delete_one oid c of (deleted_count, c1) \<Rightarrow>
          if deleted_count = 0 then (Inl (HTTPException 404 ''Task not found''), c1)
          else (Inr [(''message'', BStr ''Task deleted successfully''), (''id'', BStr task_id)], c1))))"

subsection \<open>The routes\<close>

text \<open>
  FastAPI validates the request body against the handler's parameter type before it
  calls the handler (a body that fails is answered 422 and the handler does not run),
  and the returned dict against the route's \<open>response_model\<close> after it.
\<close>

fun response_model :: "error + document \<Rightarrow> error + TaskResponse" where
  "response_model (Inl e) = Inl e"
| "response_model (Inr r) = validate_TaskResponse r"

fun response_models :: "document list \<Rightarrow> error + TaskResponse list" where
  "response_models [] = Inr []"
| "response_models (r # rs) =
     (case validate_TaskResponse r of Inl e \<Rightarrow> Inl e | Inr t \<Rightarrow>
      (case response_models rs of Inl e \<Rightarrow> Inl e | Inr ts \<Rightarrow> Inr (t # ts)))"

definition GET_tasks :: "collection \<Rightarrow> (error + TaskResponse list) \<times> collection" where
  "GET_tasks c =
     (case get_tasks c of (r, c1) \<Rightarrow>
        ((case r of Inl e \<Rightarrow> Inl e | Inr rs \<Rightarrow> response_models rs), c1))"

definition GET_task :: "string \<Rightarrow> collection \<Rightarrow> (error + TaskResponse) \<times> collection" where
  "GET_task task_id c = (case get_task task_id c of (r, c1) \<Rightarrow> (response_model r, c1))"

definition POST_tasks ::
  "string \<Rightarrow> object_id \<Rightarrow> payload \<Rightarrow> collection \<Rightarrow> (error + TaskResponse) \<times> collection" where
  "POST_tasks now new_id body c =
     (case validate_TaskCreate body of
        Inl e \<Rightarrow> (Inl e, c)
      | Inr task \<Rightarrow> (case create_task now new_id task c of (r, c1) \<Rightarrow> (response_model r, c1)))"

definition PUT_task ::
  "string \<Rightarrow> string \<Rightarrow> payload \<Rightarrow> collection \<Rightarrow> (error + TaskResponse) \<times> collection" where
  "PUT_task now task_id body c =
     (case validate_TaskUpdate body of
        Inl e \<Rightarrow> (Inl e, c)
      | Inr task_update \<Rightarrow>
          (case update_task now task_id task_update c of (r, c1) \<Rightarrow> (response_model r, c1)))"

definition DELETE_task :: "string \<Rightarrow> collection \<Rightarrow> (error + document) \<times> collection" where
  "DELETE_task task_id c = delete_task task_id c"

subsection \<open>Runs of the service\<close>

text \<open>
  A request carries what the environment decides while it is served: the clock's
  reading and, for a creation, the generated object id.
\<close>

datatype request =
    ListTasks
  | GetTask string
  | CreateTask string object_id payload
  | UpdateTask string string payload
  | DeleteTask string

fun serve :: "request \<Rightarrow> collection \<Rightarrow> collection" where
  "serve ListTasks c = snd (GET_tasks c)"
| "serve (GetTask task_id) c = snd (GET_task task_id c)"
| "serve (CreateTask now new_id body) c = snd (POST_tasks now new_id body c)"
| "serve (UpdateTask now task_id body) c = snd (PUT_task now task_id body c)"
| "serve (DeleteTask task_id) c = snd (DELETE_task task_id c)"

fun run :: "request list \<Rightarrow> collection \<Rightarrow> collection" where
  "run [] c = c"
| "run (r # rs) c = run rs (serve r c)"

fun clock :: "request \<Rightarrow> string list" where
  "clock (CreateTask now new_id body) = [now]"
| "clock (UpdateTask now task_id body) = [now]"
| "clock other = []"

definition clock_readings :: "request list \<Rightarrow> string list" where
  "clock_readings rs = concat (map clock rs)"

subsection \<open>What a creation stores and returns\<close>

text \<open>
  The document \<open>create_task\<close> hands to the store, with the \<open>_id\<close> the driver adds, and
  the dict \<open>task_helper\<close> makes of it.
\<close>

definition created_doc :: "string \<Rightarrow> object_id \<Rightarrow> TaskCreate \<Rightarrow> document" where
  "created_doc now new_id task =
     [(''_id'', BOid new_id),
      (''title'', BStr (TaskBase.title task)),
      (''description'', (case TaskBase.description task of None \<Rightarrow> BNull | Some s \<Rightarrow> BStr s)),
      (''deadline'', (case TaskBase.deadline task of None \<Rightarrow> BNull | Some s \<Rightarrow> BStr s)),
      (''status'', BStr (TaskBase.status task)),
      (''created_at'', BStr now),
      (''last_updated'', BStr now)]"

definition created_response :: "string \<Rightarrow> object_id \<Rightarrow> TaskCreate \<Rightarrow> document" where
  "created_response now new_id task =
     [(''_id'', BStr (str_oid new_id)),
      (''title'', BStr (TaskBase.title task)),
      (''description'', (case TaskBase.description task of None \<Rightarrow> BNull | Some s \<Rightarrow> BStr s)),
      (''deadline'', (case TaskBase.deadline task of None \<Rightarrow> BNull | Some s \<Rightarrow> BStr s)),
      (''status'', BStr (TaskBase.status task)),
      (''created_at'', BStr now),
      (''last_updated'', BStr now)]"

subsection \<open>Notions the properties are stated with\<close>

text \<open>The unique index on \<open>_id\<close>: no two documents of the collection share an id.\<close>

definition unique_ids :: "collection \<Rightarrow> bool" where
  "unique_ids c = distinct (map (\<lambda>d. map_of d ''_id'') (docs c))"

text \<open>
  What a request body supplies for an update: the fields of \<open>TaskUpdate\<close> it gives
  with a string, in field order.
\<close>

definition entry :: "payload \<Rightarrow> string \<Rightarrow> (string \<times> bson) option" where
  "entry body k = (case body k of Some (JStr s) \<Rightarrow> Some (k, BStr s) | _ \<Rightarrow> None)"

definition supplied :: "payload \<Rightarrow> document" where
  "supplied body = List.map_filter (entry body) field_names"

text \<open>The status of a stored document is one of the four of the pattern.\<close>

definition status_ok :: "document \<Rightarrow> bool" where
  "status_ok d = (case map_of d ''status'' of Some (BStr s) \<Rightarrow> status_pattern s | _ \<Rightarrow> False)"

text \<open>
  Timestamps are the strings \<open>isoformat()\<close> gives; \<open>le\<close> is the order they are
  compared in. \<open>stamps_ok\<close>: a document's \<open>created_at\<close> is not after its
  \<open>last_updated\<close>; \<open>not_after\<close>: its \<open>last_updated\<close> is not after the reading \<open>t\<close>.
\<close>

definition stamps_ok :: "(string \<Rightarrow> string \<Rightarrow> bool) \<Rightarrow> document \<Rightarrow> bool" where
  "stamps_ok le d =
     (case (map_of d ''created_at'', map_of d ''last_updated'') of
        (Some (BStr a), Some (BStr b)) \<Rightarrow> le a b
      | _ \<Rightarrow> False)"

definition not_after :: "(string \<Rightarrow> string \<Rightarrow> bool) \<Rightarrow> string \<Rightarrow> document \<Rightarrow> bool" where
  "not_after le t d = (case map_of d ''last_updated'' of Some (BStr b) \<Rightarrow> le b t | _ \<Rightarrow> False)"

text \<open>
  The order of strings character by character, a prefix first. On the strings
  \<open>isoformat()\<close> gives for UTC times (four digits of year, two of month, day, hour,
  minute and second, the microseconds left out when zero) it is the order of time.
\<close>

fun str_le :: "string \<Rightarrow> string \<Rightarrow> bool" where
  "str_le [] ys = True"
| "str_le (x # xs) [] = False"
| "str_le (x # xs) (y # ys) =
     ((of_char x :: nat) < of_char y \<or> (x = y \<and> str_le xs ys))"

section \<open>Properties\<close>

subsection \<open>Object ids\<close>

lemma hexval_hexchar:
  assumes "n < 16"
  shows "hexval (hexchar n) = Some n"
proof -
  have "\<forall>k \<in> {..<16::nat}. hexval (hexchar k) = Some k"
    by (simp add: lessThan_nat_numeral lessThan_Suc hexval_def hexchar_def)
  with assms show ?thesis by blast
qed

lemma length_hexlify: "length (hexlify k n) = k"
  by (induction k arbitrary: n) auto

lemma fromhex_append:
  "fromhex (xs @ ys) acc = (case fromhex xs acc of None \<Rightarrow> None | Some a \<Rightarrow> fromhex ys a)"
  by (induction xs arbitrary: acc) (auto split: option.splits)

lemma fromhex_hexlify: "fromhex (hexlify k n) acc = Some (16 ^ k * acc + n mod 16 ^ k)"
proof (induction k arbitrary: n acc)
  case 0
  show ?case by simp
next
  case (Suc k)
  have digit: "hexval (hexchar (n mod 16)) = Some (n mod 16)"
    by (rule hexval_hexchar) simp
  have split: "n mod (16 * 16 ^ k) = 16 * ((n div 16) mod 16 ^ k) + n mod 16"
    by (simp add: mod_mult2_eq)
  show ?case
    by (simp add: fromhex_append Suc.IH digit split algebra_simps)
qed

lemma ObjectId_str_oid: "ObjectId (str_oid oid) = Inr oid"
proof -
  have bound: "unat oid < 16 ^ 24"
    using unsigned_less [of oid, where ?'a = nat] by simp
  have "fromhex (hexlify 24 (unat oid)) 0 = Some (unat oid)"
    using bound by (simp add: fromhex_hexlify)
  then show ?thesis
    by (simp add: ObjectId_def str_oid_def length_hexlify)
qed

lemma is_valid_str_oid: "is_valid (str_oid oid)"
proof -
  have "length (str_oid oid) = 24"
    by (simp add: str_oid_def length_hexlify)
  then have "str_oid oid \<noteq> []" by auto
  then show ?thesis by (simp add: is_valid_def ObjectId_str_oid)
qed

lemma hexlify_numeral:
  "hexlify (numeral k) n = hexlify (pred_numeral k) (n div 16) @ [hexchar (n mod 16)]"
  by (simp only: numeral_eq_Suc hexlify.simps)

subsection \<open>The validators\<close>

lemma required_title_Inr: "required_title j = Inr t \<Longrightarrow> j = Some (JStr t) \<and> title_length t"
  by (induction j rule: required_title.induct) (auto split: if_splits)

lemma defaulted_status_Inr:
  "defaulted_status j = Inr s \<Longrightarrow>
     status_pattern s \<and> (j = None \<and> s = ''not-done'' \<or> j = Some (JStr s))"
  by (induction j rule: defaulted_status.induct) (auto split: if_splits simp: status_pattern_def)

lemma optional_str_Inr_Some:
  "optional_str ok j = Inr (Some s) \<Longrightarrow> j = Some (JStr s) \<and> ok s"
  by (induction ok j rule: optional_str.induct) (auto split: if_splits)

lemma optional_str_Inr_None:
  "optional_str ok j = Inr None \<Longrightarrow> j = None \<or> j = Some JNull"
  by (induction ok j rule: optional_str.induct) (auto split: if_splits)

lemma validate_TaskCreate_Inr:
  assumes "validate_TaskCreate body = Inr task"
  shows "title_length (TaskBase.title task)" and "status_pattern (TaskBase.status task)"
    and "body ''status'' = None \<Longrightarrow> TaskBase.status task = ''not-done''"
  using assms
  by (auto simp: validate_TaskCreate_def split: sum.splits
      dest: required_title_Inr defaulted_status_Inr)

subsection \<open>Creation\<close>

lemma find_append:
  "find P (xs @ ys) = (case find P xs of None \<Rightarrow> find P ys | Some x \<Rightarrow> Some x)"
  by (induction xs) auto

lemma create_task_fresh:
  assumes "find (has_id new_id) (docs c) = None"
  shows "create_task now new_id task c =
     (task_helper (created_doc now new_id task),
      c\<lparr>docs := docs c @ [created_doc now new_id task],
        calls := calls c @ [InsertOne (tl (created_doc now new_id task)), FindOne new_id]\<rparr>)"
  using assms
  by (simp add: create_task_def insert_one_def find_one_def called_def find_append has_id_def
      created_doc_def Let_def)

lemma task_helper_created:
  "task_helper (created_doc now new_id task) = Inr (created_response now new_id task)"
  by (simp add: task_helper_def created_doc_def created_response_def dict_get_def)

lemma validate_created_response:
  assumes "title_length (TaskBase.title task)" and "status_pattern (TaskBase.status task)"
  shows "validate_TaskResponse (created_response now new_id task) =
     Inr \<lparr>TaskBase.title = TaskBase.title task, description = TaskBase.description task,
          deadline = TaskBase.deadline task, status = TaskBase.status task,
          id' = str_oid new_id, created_at = now, last_updated = now\<rparr>"
  using assms
  by (simp add: validate_TaskResponse_def created_response_def unconstrained_def
      split: option.splits)

lemma create_task_stored:
  assumes "find (has_id new_id) (docs c) = None"
  shows "find (has_id new_id) (docs (snd (create_task now new_id task c)))
        = Some (created_doc now new_id task)"
  using assms
  by (simp add: create_task_fresh [OF assms] find_append) (simp add: has_id_def created_doc_def)

text \<open>
  C1. A creation payload that validates, with an object id the collection does not
  hold yet: \<open>create_task\<close> returns the dict of seven fields, \<open>_id\<close> the string of the
  new object id, \<open>created_at\<close> and \<open>last_updated\<close> both the clock's reading; the route
  answers with the same task; a payload without \<open>status\<close> gives \<open>not-done\<close>; and the
  document is in the collection under the new id.
\<close>

theorem create_task_returns:
  assumes valid: "validate_TaskCreate body = Inr task"
    and fresh: "find (has_id new_id) (docs c) = None"
  shows "fst (create_task now new_id task c) = Inr (created_response now new_id task)
    \<and> fst (POST_tasks now new_id body c) =
        Inr \<lparr>TaskBase.title = TaskBase.title task, description = TaskBase.description task,
             deadline = TaskBase.deadline task, status = TaskBase.status task,
             id' = str_oid new_id, created_at = now, last_updated = now\<rparr>
    \<and> (body ''status'' = None \<longrightarrow> TaskBase.status task = ''not-done'')
    \<and> find (has_id new_id) (docs (snd (create_task now new_id task c)))
        = Some (created_doc now new_id task)"
proof -
  have handler: "fst (create_task now new_id task c) = Inr (created_response now new_id task)"
    by (simp add: create_task_fresh [OF fresh] task_helper_created)
  have route: "fst (POST_tasks now new_id body c) = response_model (fst (create_task now new_id task c))"
    by (simp add: POST_tasks_def valid split: prod.splits)
  have stored: "find (has_id new_id) (docs (snd (create_task now new_id task c)))
        = Some (created_doc now new_id task)"
    by (rule create_task_stored [OF fresh])
  show ?thesis
    using validate_TaskCreate_Inr [OF valid] handler route stored
    by (simp add: validate_created_response)
qed

theorem create_task_returns_witness:
  "fst (POST_tasks ''2024-05-01T10:00:00'' 5 [''title'' \<mapsto> JStr ''Write report''] empty_collection) =
     Inr \<lparr>TaskBase.title = ''Write report'', description = None, deadline = None,
          status = ''not-done'', id' = ''000000000000000000000005'',
          created_at = ''2024-05-01T10:00:00'', last_updated = ''2024-05-01T10:00:00''\<rparr>"
proof -
  have valid: "validate_TaskCreate [''title'' \<mapsto> JStr ''Write report''] =
      Inr \<lparr>TaskBase.title = ''Write report'', description = None, deadline = None, status = ''not-done''\<rparr>"
    by (simp add: validate_TaskCreate_def title_length_def)
  have fresh: "find (has_id 5) (docs empty_collection) = None"
    by (simp add: empty_collection_def)
  have id5: "str_oid 5 = ''000000000000000000000005''"
    by (simp add: str_oid_def hexchar_def hexlify_numeral)
  show ?thesis
    using create_task_returns [OF valid fresh, of "''2024-05-01T10:00:00''"]
    by (simp add: id5)
qed

subsection \<open>Identifiers\<close>

lemma is_valid_ObjectId: "is_valid s \<Longrightarrow> \<exists>oid. ObjectId s = Inr oid"
  by (auto simp: is_valid_def split: if_splits sum.splits)




lemma docs_called [simp]: "docs (called op c) = docs c"
  by (simp add: called_def)

lemma find_Some_holds: "find P xs = Some x \<Longrightarrow> P x \<and> x \<in> set xs"
  by (induction xs) (auto split: if_splits)

lemma find_delete_first:
  assumes "distinct (map (\<lambda>d. map_of d ''_id'') ds)"
  shows "find (has_id oid) (delete_first oid ds) = None"
  using assms
proof (induction ds)
  case Nil
  show ?case by simp
next
  case (Cons d ds)
  show ?case
  proof (cases "has_id oid d")
    case True
    then have "map_of d ''_id'' = Some (BOid oid)" by (simp add: has_id_def)
    with Cons.prems have "\<forall>e \<in> set ds. \<not> has_id oid e"
      by (auto simp: has_id_def image_iff)
    then have "find (has_id oid) ds = None" by (simp add: find_None_iff)
    with True show ?thesis by simp
  next
    case False
    with Cons show ?thesis by simp
  qed
qed

lemma get_task_unknown:
  assumes "is_valid task_id" and "ObjectId task_id = Inr oid" and "find (has_id oid) (docs c) = None"
  shows "get_task task_id c = (Inl (HTTPException 404 ''Task not found''), called (FindOne oid) c)"
  using assms by (simp add: get_task_def find_one_def)

lemma update_task_unknown:
  assumes "is_valid task_id" and "ObjectId task_id = Inr oid" and "find (has_id oid) (docs c) = None"
    and "update_dict task_update \<noteq> []"
  shows "update_task now task_id task_update c =
     (Inl (HTTPException 404 ''Task not found''),
      called (UpdateOne oid (AList.update ''last_updated'' (BStr now) (update_dict task_update))) c)"
  using assms by (simp add: update_task_def update_one_def Let_def)

lemma delete_task_unknown:
  assumes "is_valid task_id" and "ObjectId task_id = Inr oid" and "find (has_id oid) (docs c) = None"
  shows "delete_task task_id c = (Inl (HTTPException 404 ''Task not found''), called (DeleteOne oid) c)"
  using assms by (simp add: delete_task_def delete_one_def)

lemma delete_task_known:
  assumes "is_valid task_id" and "ObjectId task_id = Inr oid" and "find (has_id oid) (docs c) = Some d"
  shows "delete_task task_id c =
     (Inr [(''message'', BStr ''Task deleted successfully''), (''id'', BStr task_id)],
      (called (DeleteOne oid) c)\<lparr>docs := delete_first oid (docs c)\<rparr>)"
  using assms by (simp add: delete_task_def delete_one_def)

text \<open>
  C5. A valid identifier whose object id no document has: \<open>get_task\<close>, \<open>update_task\<close>
  with a non-empty update and \<open>delete_task\<close> raise \<open>HTTPException(404, "Task not
  found")\<close> and leave the documents as they were. And when a document has the id, in a
  collection whose ids are unique, the first \<open>delete_task\<close> returns the confirmation and
  the second raises the 404, changing nothing.
\<close>

theorem unknown_id_not_found:
  assumes valid: "is_valid task_id" and oid: "ObjectId task_id = Inr oid"
  shows "(find (has_id oid) (docs c) = None \<longrightarrow>
        fst (get_task task_id c) = Inl (HTTPException 404 ''Task not found'')
      \<and> docs (snd (get_task task_id c)) = docs c
      \<and> (update_dict task_update \<noteq> [] \<longrightarrow>
          fst (update_task now task_id task_update c) = Inl (HTTPException 404 ''Task not found'')
        \<and> docs (snd (update_task now task_id task_update c)) = docs c)
      \<and> fst (delete_task task_id c) = Inl (HTTPException 404 ''Task not found'')
      \<and> docs (snd (delete_task task_id c)) = docs c)
    \<and> (find (has_id oid) (docs c) \<noteq> None \<and> unique_ids c \<longrightarrow>
        fst (delete_task task_id c) =
          Inr [(''message'', BStr ''Task deleted successfully''), (''id'', BStr task_id)]
      \<and> fst (delete_task task_id (snd (delete_task task_id c))) =
          Inl (HTTPException 404 ''Task not found'')
      \<and> docs (snd (delete_task task_id (snd (delete_task task_id c)))) =
          docs (snd (delete_task task_id c)))"
proof (intro conjI impI)
  assume none: "find (has_id oid) (docs c) = None"
  show "fst (get_task task_id c) = Inl (HTTPException 404 ''Task not found'')"
    and "docs (snd (get_task task_id c)) = docs c"
    by (simp_all add: get_task_unknown [OF valid oid none])
  show "fst (delete_task task_id c) = Inl (HTTPException 404 ''Task not found'')"
    and "docs (snd (delete_task task_id c)) = docs c"
    by (simp_all add: delete_task_unknown [OF valid oid none])
  assume some: "update_dict task_update \<noteq> []"
  show "fst (update_task now task_id task_update c) = Inl (HTTPException 404 ''Task not found'')"
    and "docs (snd (update_task now task_id task_update c)) = docs c"
    by (simp_all add: update_task_unknown [OF valid oid none some])
next
  assume present: "find (has_id oid) (docs c) \<noteq> None \<and> unique_ids c"
  then obtain d where d: "find (has_id oid) (docs c) = Some d" by auto
  let ?c1 = "snd (delete_task task_id c)"
  have gone: "find (has_id oid) (docs ?c1) = None"
    using present by (simp add: delete_task_known [OF valid oid d] find_delete_first unique_ids_def)
  show "fst (delete_task task_id c) =
      Inr [(''message'', BStr ''Task deleted successfully''), (''id'', BStr task_id)]"
    by (simp add: delete_task_known [OF valid oid d])
  show "fst (delete_task task_id ?c1) = Inl (HTTPException 404 ''Task not found'')"
    and "docs (snd (delete_task task_id ?c1)) = docs ?c1"
    by (simp_all add: delete_task_unknown [OF valid oid gone])
qed

theorem unknown_id_not_found_witness:
  "fst (get_task ''000000000000000000000005'' empty_collection)
      = Inl (HTTPException 404 ''Task not found'')
    \<and> fst (update_task ''2024-05-02T08:30:00'' ''000000000000000000000005''
          \<lparr>TaskUpdate.title = None, description = None, deadline = None, status = Some ''done'',
           fields_set = [''status'']\<rparr> empty_collection)
      = Inl (HTTPException 404 ''Task not found'')
    \<and> fst (delete_task ''000000000000000000000005'' empty_collection)
      = Inl (HTTPException 404 ''Task not found'')
    \<and> fst (delete_task ''000000000000000000000005''
          \<lparr>docs = [[(''_id'', BOid 5), (''title'', BStr ''Write report'')]], calls = []\<rparr>)
      = Inr [(''message'', BStr ''Task deleted successfully''),
             (''id'', BStr ''000000000000000000000005'')]
    \<and> fst (delete_task ''000000000000000000000005''
          (snd (delete_task ''000000000000000000000005''
            \<lparr>docs = [[(''_id'', BOid 5), (''title'', BStr ''Write report'')]], calls = []\<rparr>)))
      = Inl (HTTPException 404 ''Task not found'')"
proof -
  have valid: "is_valid ''000000000000000000000005''"
    by (simp add: is_valid_def ObjectId_def hexval_def)
  have oid: "ObjectId ''000000000000000000000005'' = Inr 5"
    by (simp add: ObjectId_def hexval_def)
  have none: "find (has_id 5) (docs empty_collection) = None"
    by (simp add: empty_collection_def)
  have some: "update_dict \<lparr>TaskUpdate.title = None, description = None, deadline = None,
      status = Some ''done'', fields_set = [''status'']\<rparr> \<noteq> []"
    by (simp add: update_dict_def dict_exclude_unset_def)
  have present: "find (has_id 5)
      (docs \<lparr>docs = [[(''_id'', BOid 5), (''title'', BStr ''Write report'')]], calls = []\<rparr>) \<noteq> None"
    by (simp add: has_id_def)
  have unique: "unique_ids \<lparr>docs = [[(''_id'', BOid 5), (''title'', BStr ''Write report'')]], calls = []\<rparr>"
    by (simp add: unique_ids_def)
  show ?thesis
    using unknown_id_not_found [OF valid oid, of empty_collection _ "''2024-05-02T08:30:00''"]
      unknown_id_not_found [OF valid oid,
        of "\<lparr>docs = [[(''_id'', BOid 5), (''title'', BStr ''Write report'')]], calls = []\<rparr>"]
      none some present unique
    by blast
qed

subsection \<open>The update payload\<close>

lemma map_filter_map_id: "List.map_filter id (map f xs) = List.map_filter f xs"
  by (induction xs) (simp_all split: option.splits)

lemma optional_str_cases:
  "optional_str ok j = Inr v \<Longrightarrow>
     (v = None \<and> (j = None \<or> j = Some JNull)) \<or> (\<exists>s. v = Some s \<and> j = Some (JStr s) \<and> ok s)"
  by (induction ok j rule: optional_str.induct) (auto split: if_splits)

lemma map_filter_filter:
  "List.map_filter f (filter P xs) = List.map_filter id (map (\<lambda>x. if P x then f x else None) xs)"
  by (induction xs) (simp_all split: option.splits)

lemma entry_validated:
  assumes "optional_str ok (body n) = Inr v"
  shows "(if body n \<noteq> None then map_option (\<lambda>s. (n, BStr s)) v else None) = entry body n"
  using optional_str_cases [OF assms] by (auto simp: entry_def)

lemma update_dict_validated:
  assumes "validate_TaskUpdate body = Inr u"
  shows "update_dict u = supplied body"
proof -
  from assms obtain t de dl st where
    t: "optional_str title_length (body ''title'') = Inr t"
    and de: "optional_str unconstrained (body ''description'') = Inr de"
    and dl: "optional_str unconstrained (body ''deadline'') = Inr dl"
    and st: "optional_str status_pattern (body ''status'') = Inr st"
    and u: "u = \<lparr>TaskUpdate.title = t, description = de, deadline = dl, status = st,
                fields_set = filter (\<lambda>k. body k \<noteq> None) field_names\<rparr>"
    by (auto simp: validate_TaskUpdate_def split: sum.splits)
  have mem: "k \<in> set field_names \<Longrightarrow> (k \<in> set (fields_set u)) = (body k \<noteq> None)" for k
    by (simp add: u)
  have sets: "(''title'' \<in> set (fields_set u)) = (body ''title'' \<noteq> None)"
    "(''description'' \<in> set (fields_set u)) = (body ''description'' \<noteq> None)"
    "(''deadline'' \<in> set (fields_set u)) = (body ''deadline'' \<noteq> None)"
    "(''status'' \<in> set (fields_set u)) = (body ''status'' \<noteq> None)"
    by (rule mem, simp add: field_names_def)+
  have vals: "TaskUpdate.title u = t" "TaskUpdate.description u = de"
    "TaskUpdate.deadline u = dl" "TaskUpdate.status u = st"
    by (simp_all add: u)
  have "update_dict u =
      List.map_filter id
        [if ''title'' \<in> set (fields_set u)
         then map_option (\<lambda>s. (''title'', BStr s)) (TaskUpdate.title u) else None,
         if ''description'' \<in> set (fields_set u)
         then map_option (\<lambda>s. (''description'', BStr s)) (TaskUpdate.description u) else None,
         if ''deadline'' \<in> set (fields_set u)
         then map_option (\<lambda>s. (''deadline'', BStr s)) (TaskUpdate.deadline u) else None,
         if ''status'' \<in> set (fields_set u)
         then map_option (\<lambda>s. (''status'', BStr s)) (TaskUpdate.status u) else None]"
    by (simp only: update_dict_def dict_exclude_unset_def map_filter_filter list.map prod.case)
  also have "\<dots> =
      List.map_filter id
        [if body ''title'' \<noteq> None then map_option (\<lambda>s. (''title'', BStr s)) t else None,
         if body ''description'' \<noteq> None then map_option (\<lambda>s. (''description'', BStr s)) de else None,
         if body ''deadline'' \<noteq> None then map_option (\<lambda>s. (''deadline'', BStr s)) dl else None,
         if body ''status'' \<noteq> None then map_option (\<lambda>s. (''status'', BStr s)) st else None]"
    by (simp only: sets vals)
  also have "\<dots> = List.map_filter id
        [entry body ''title'', entry body ''description'', entry body ''deadline'', entry body ''status'']"
    by (simp only: entry_validated [of _ body "''title''", OF t]
        entry_validated [of _ body "''description''", OF de]
        entry_validated [of _ body "''deadline''", OF dl]
        entry_validated [of _ body "''status''", OF st])
  also have "\<dots> = List.map_filter id (map (entry body) field_names)"
    by (simp only: field_names_def list.map)
  also have "\<dots> = supplied body"
    by (simp only: supplied_def map_filter_map_id)
  finally show ?thesis .
qed

lemma optional_str_null: "optional_str ok ((body(k \<mapsto> JNull)) f) = optional_str ok ((body(k := None)) f)"
  by simp

lemma entry_null: "entry (body(k \<mapsto> JNull)) = entry (body(k := None))"
  by (rule ext) (simp add: entry_def)

lemma supplied_null: "supplied (body(k \<mapsto> JNull)) = supplied (body(k := None))"
  by (simp add: supplied_def entry_null)


lemma update_task_cong:
  "update_dict u = update_dict u' \<Longrightarrow> update_task now task_id u c = update_task now task_id u' c"
  by (simp add: update_task_def)

lemma validate_TaskUpdate_null_Inl:
  "validate_TaskUpdate (body(k \<mapsto> JNull)) = Inl e \<longleftrightarrow> validate_TaskUpdate (body(k := None)) = Inl e"
  unfolding validate_TaskUpdate_def
  by (simp only: optional_str_null) (simp split: sum.splits)

lemma PUT_task_null:
  "PUT_task now task_id (body(k \<mapsto> JNull)) c = PUT_task now task_id (body(k := None)) c"
proof (cases "validate_TaskUpdate (body(k := None))")
  case (Inl e)
  then have "validate_TaskUpdate (body(k \<mapsto> JNull)) = Inl e"
    by (simp add: validate_TaskUpdate_null_Inl)
  with Inl show ?thesis by (simp add: PUT_task_def)
next
  case (Inr u2)
  then obtain u1 where u1: "validate_TaskUpdate (body(k \<mapsto> JNull)) = Inr u1"
    using validate_TaskUpdate_null_Inl [of body k]
    by (cases "validate_TaskUpdate (body(k \<mapsto> JNull))") auto
  have "update_dict u1 = update_dict u2"
    by (simp add: update_dict_validated [OF u1] update_dict_validated [OF Inr] supplied_null)
  then have "update_task now task_id u1 c = update_task now task_id u2 c"
    by (rule update_task_cong)
  with u1 Inr show ?thesis by (simp add: PUT_task_def)
qed





subsection \<open>The merge of an update\<close>

lemma map_of_set_fields: "map_of (set_fields u d) = map_of d ++ map_of (rev u)"
proof (induction u arbitrary: d)
  case Nil
  show ?case by (simp add: set_fields_def)
next
  case (Cons kv u)
  obtain k v where kv: "kv = (k, v)" by (cases kv)
  have "set_fields (kv # u) d = set_fields u (AList.update k v d)"
    by (simp add: set_fields_def kv)
  then show ?case
    by (simp add: Cons.IH kv update_conv' map_of_append fun_eq_iff map_add_def split: option.splits)
qed

lemma update_absent: "k \<notin> fst ` set al \<Longrightarrow> AList.update k v al = al @ [(k, v)]"
  by (induction al) auto

lemma map_of_rev_map_filter:
  assumes "\<And>k x. f k = Some x \<Longrightarrow> fst x = k"
  shows "map_of (rev (List.map_filter f ks)) k =
     (if k \<in> set ks then map_option snd (f k) else None)"
proof (induction ks)
  case Nil
  show ?case by simp
next
  case (Cons a ks)
  show ?case
  proof (cases "f a")
    case None
    with Cons show ?thesis by auto
  next
    case (Some x)
    with assms have "fst x = a" by blast
    with Some Cons show ?thesis
      by (cases x) (auto simp: map_of_append map_add_def split: option.splits)
  qed
qed

lemma map_of_rev_supplied:
  "map_of (rev (supplied body)) k =
     (if k \<in> set field_names then map_option snd (entry body k) else None)"
  unfolding supplied_def
  by (rule map_of_rev_map_filter) (auto simp: entry_def split: option.splits json.splits)

lemma keys_supplied: "fst ` set (supplied body) \<subseteq> set field_names"
proof
  fix k assume "k \<in> fst ` set (supplied body)"
  then obtain v where "(k, v) \<in> set (rev (supplied body))" by auto
  then have "map_of (rev (supplied body)) k \<noteq> None"
    by (metis map_of_eq_None_iff fst_conv image_eqI)
  then show "k \<in> set field_names"
    by (simp add: map_of_rev_supplied split: if_splits)
qed

lemma last_updated_appended:
  "AList.update ''last_updated'' v (supplied body) = supplied body @ [(''last_updated'', v)]"
proof (rule update_absent)
  show "''last_updated'' \<notin> fst ` set (supplied body)"
    using keys_supplied [of body] by (auto simp: field_names_def)
qed

lemma map_of_updated:
  "map_of (set_fields (supplied body @ [(''last_updated'', BStr now)]) d) k =
     (if k = ''last_updated'' then Some (BStr now)
      else if k \<in> set field_names
        then (case body k of Some (JStr s) \<Rightarrow> Some (BStr s) | _ \<Rightarrow> map_of d k)
        else map_of d k)"
  by (simp add: map_of_set_fields map_add_def map_of_rev_supplied entry_def
      split: option.splits json.splits)

lemma list_all2_update_first:
  "list_all2 (\<lambda>d d'. d' = d \<or> (has_id oid d \<and> d' = set_fields u d)) ds (update_first oid u ds)"
  by (induction ds) (auto intro: list_all2_refl)

lemma find_update_first:
  assumes "find (has_id oid) ds = Some d" and "has_id oid (set_fields u d)"
  shows "find (has_id oid) (update_first oid u ds) = Some (set_fields u d)"
  using assms by (induction ds) (auto split: if_splits)

lemma has_id_updated:
  "has_id oid (set_fields (supplied body @ [(''last_updated'', v)]) d) = has_id oid d"
proof -
  have "map_of (set_fields (supplied body @ [(''last_updated'', v)]) d) ''_id'' = map_of d ''_id''"
    by (simp add: map_of_set_fields map_add_def map_of_rev_supplied field_names_def)
  then show ?thesis by (simp add: has_id_def)
qed

lemma update_task_docs:
  assumes body: "validate_TaskUpdate body = Inr task_update"
    and valid: "is_valid task_id" and oid: "ObjectId task_id = Inr oid"
  shows "docs (snd (update_task now task_id task_update c)) =
     (if supplied body = [] \<or> find (has_id oid) (docs c) = None then docs c
      else update_first oid (supplied body @ [(''last_updated'', BStr now)]) (docs c))"
  using valid oid
  by (simp add: update_task_def update_dict_validated [OF body] last_updated_appended
      update_one_def find_one_def Let_def split: option.splits prod.splits)

text \<open>
  C2. An update of an existing task with a body that validates. Document by document,
  the collection afterwards is the collection before, except for the task: there every
  key other than \<open>last_updated\<close> and the fields the body gives with a string has its
  prior value; \<open>_id\<close> and \<open>created_at\<close> are unchanged in every document; and when the
  body supplies a field, the task then carries the supplied strings and the clock's
  reading as \<open>last_updated\<close>.
\<close>

theorem update_task_frame:
  assumes body: "validate_TaskUpdate body = Inr task_update"
    and valid: "is_valid task_id" and oid: "ObjectId task_id = Inr oid"
    and existing: "find (has_id oid) (docs c) = Some d"
  shows "list_all2
        (\<lambda>d d'. d' = d \<or> has_id oid d \<and>
           (\<forall>k. k \<noteq> ''last_updated'' \<and> \<not> (k \<in> set field_names \<and> (\<exists>s. body k = Some (JStr s)))
              \<longrightarrow> map_of d' k = map_of d k))
        (docs c) (docs (snd (update_task now task_id task_update c)))
    \<and> list_all2
        (\<lambda>d d'. map_of d' ''_id'' = map_of d ''_id'' \<and> map_of d' ''created_at'' = map_of d ''created_at'')
        (docs c) (docs (snd (update_task now task_id task_update c)))
    \<and> (supplied body \<noteq> [] \<longrightarrow>
        (\<exists>d'. find (has_id oid) (docs (snd (update_task now task_id task_update c))) = Some d'
          \<and> map_of d' ''last_updated'' = Some (BStr now)
          \<and> (\<forall>k s. k \<in> set field_names \<and> body k = Some (JStr s) \<longrightarrow> map_of d' k = Some (BStr s))))"
proof -
  let ?u = "supplied body @ [(''last_updated'', BStr now)]"
  let ?c' = "snd (update_task now task_id task_update c)"
  have docs': "docs ?c' = (if supplied body = [] then docs c else update_first oid ?u (docs c))"
    using existing by (simp add: update_task_docs [OF body valid oid])
  have step: "list_all2 (\<lambda>d d'. d' = d \<or> (has_id oid d \<and> d' = set_fields ?u d)) (docs c) (docs ?c')"
    by (simp add: docs' list_all2_update_first list_all2_refl)
  have frame: "list_all2
        (\<lambda>d d'. d' = d \<or> has_id oid d \<and>
           (\<forall>k. k \<noteq> ''last_updated'' \<and> \<not> (k \<in> set field_names \<and> (\<exists>s. body k = Some (JStr s)))
              \<longrightarrow> map_of d' k = map_of d k))
        (docs c) (docs ?c')"
    by (rule list_all2_mono [OF step]) (auto simp: map_of_updated split: option.splits json.splits)
  have fixed: "list_all2
        (\<lambda>d d'. map_of d' ''_id'' = map_of d ''_id'' \<and> map_of d' ''created_at'' = map_of d ''created_at'')
        (docs c) (docs ?c')"
    by (rule list_all2_mono [OF step]) (auto simp: map_of_updated field_names_def)
  have changed: "\<exists>d'. find (has_id oid) (docs ?c') = Some d'
          \<and> map_of d' ''last_updated'' = Some (BStr now)
          \<and> (\<forall>k s. k \<in> set field_names \<and> body k = Some (JStr s) \<longrightarrow> map_of d' k = Some (BStr s))"
    if "supplied body \<noteq> []"
  proof -
    have "has_id oid d" using existing by (auto dest: find_Some_holds)
    then have "find (has_id oid) (docs ?c') = Some (set_fields ?u d)"
      using that existing by (simp add: docs' find_update_first has_id_updated)
    moreover have "map_of (set_fields ?u d) ''last_updated'' = Some (BStr now)"
      by (simp add: map_of_updated)
    moreover have "\<forall>k s. k \<in> set field_names \<and> body k = Some (JStr s)
        \<longrightarrow> map_of (set_fields ?u d) k = Some (BStr s)"
      by (auto simp: map_of_updated field_names_def)
    ultimately show ?thesis by blast
  qed
  from frame fixed changed show ?thesis by blast
qed

theorem update_task_frame_witness:
  "list_all2
        (\<lambda>d d'. map_of d' ''_id'' = map_of d ''_id'' \<and> map_of d' ''created_at'' = map_of d ''created_at'')
        [created_doc ''2024-05-01T10:00:00'' 5
           \<lparr>TaskBase.title = ''Write report'', description = None, deadline = None,
            status = ''not-done''\<rparr>]
        (docs (snd (update_task ''2024-05-02T08:30:00'' ''000000000000000000000005''
           \<lparr>TaskUpdate.title = None, description = None, deadline = None, status = Some ''done'',
            fields_set = [''status'']\<rparr>
           \<lparr>docs = [created_doc ''2024-05-01T10:00:00'' 5
              \<lparr>TaskBase.title = ''Write report'', description = None, deadline = None,
               status = ''not-done''\<rparr>], calls = []\<rparr>)))
   \<and> (\<exists>d'. find (has_id 5)
          (docs (snd (update_task ''2024-05-02T08:30:00'' ''000000000000000000000005''
             \<lparr>TaskUpdate.title = None, description = None, deadline = None, status = Some ''done'',
              fields_set = [''status'']\<rparr>
             \<lparr>docs = [created_doc ''2024-05-01T10:00:00'' 5
                \<lparr>TaskBase.title = ''Write report'', description = None, deadline = None,
                 status = ''not-done''\<rparr>], calls = []\<rparr>))) = Some d'
        \<and> map_of d' ''last_updated'' = Some (BStr ''2024-05-02T08:30:00'')
        \<and> map_of d' ''status'' = Some (BStr ''done'')
        \<and> map_of d' ''title'' = Some (BStr ''Write report''))"
proof -
  let ?task = "\<lparr>TaskBase.title = ''Write report'', description = None, deadline = None,
      status = ''not-done''\<rparr>"
  let ?d = "created_doc ''2024-05-01T10:00:00'' 5 ?task"
  let ?c = "\<lparr>docs = [?d], calls = []\<rparr>"
  let ?body = "[''status'' \<mapsto> JStr ''done'']"
  let ?u = "\<lparr>TaskUpdate.title = None, description = None, deadline = None, status = Some ''done'',
      fields_set = [''status'']\<rparr>"
  let ?c' = "snd (update_task ''2024-05-02T08:30:00'' ''000000000000000000000005'' ?u ?c)"
  have body: "validate_TaskUpdate ?body = Inr ?u"
    by (simp add: validate_TaskUpdate_def field_names_def status_pattern_def)
  have valid: "is_valid ''000000000000000000000005''"
    by (simp add: is_valid_def ObjectId_def hexval_def)
  have oid: "ObjectId ''000000000000000000000005'' = Inr 5"
    by (simp add: ObjectId_def hexval_def)
  have existing: "find (has_id 5) (docs ?c) = Some ?d"
    by (simp add: has_id_def created_doc_def)
  have sup: "supplied ?body \<noteq> []"
    by (simp add: supplied_def entry_def field_names_def)
  note frame = update_task_frame [OF body valid oid existing, of "''2024-05-02T08:30:00''"]
  from frame have fixed: "list_all2
        (\<lambda>d d'. map_of d' ''_id'' = map_of d ''_id'' \<and> map_of d' ''created_at'' = map_of d ''created_at'')
        (docs ?c) (docs ?c')"
    by blast
  from frame have rest: "list_all2
        (\<lambda>d d'. d' = d \<or> has_id 5 d \<and>
           (\<forall>k. k \<noteq> ''last_updated'' \<and> \<not> (k \<in> set field_names \<and> (\<exists>s. ?body k = Some (JStr s)))
              \<longrightarrow> map_of d' k = map_of d k))
        (docs ?c) (docs ?c')"
    by blast
  from frame sup obtain d' where found: "find (has_id 5) (docs ?c') = Some d'"
    and stamp: "map_of d' ''last_updated'' = Some (BStr ''2024-05-02T08:30:00'')"
    and set: "\<forall>k s. k \<in> set field_names \<and> ?body k = Some (JStr s) \<longrightarrow> map_of d' k = Some (BStr s)"
    by blast
  from set have status: "map_of d' ''status'' = Some (BStr ''done'')"
    by (simp add: field_names_def)
  from rest obtain e where e: "docs ?c' = [e]"
    and kept: "e = ?d \<or> has_id 5 ?d \<and>
           (\<forall>k. k \<noteq> ''last_updated'' \<and> \<not> (k \<in> set field_names \<and> (\<exists>s. ?body k = Some (JStr s)))
              \<longrightarrow> map_of e k = map_of ?d k)"
    by (auto simp: list_all2_Cons1)
  from found e have "d' = e" by (simp split: if_splits)
  with kept have title: "map_of d' ''title'' = Some (BStr ''Write report'')"
    by (auto simp: created_doc_def)
  from fixed found stamp status title show ?thesis by simp
qed

subsection \<open>Null in an update\<close>

lemma update_task_docs_any:
  "docs (snd (update_task now task_id u c)) = docs c
   \<or> (\<exists>oid. docs (snd (update_task now task_id u c)) =
         update_first oid (AList.update ''last_updated'' (BStr now) (update_dict u)) (docs c))"
  by (auto simp: update_task_def update_one_def find_one_def Let_def
      split: sum.splits option.splits prod.splits)

lemma update_dict_strings: "(k, v) \<in> set (update_dict u) \<Longrightarrow> \<exists>s. v = BStr s"
  by (auto simp: update_dict_def List.map_filter_def)

lemma set_update: "(k, w) \<in> set (AList.update l v al) \<Longrightarrow> (k, w) = (l, v) \<or> (k, w) \<in> set al"
  by (induction al) (auto split: if_splits)

lemma set_fields_no_null:
  assumes "BNull \<notin> snd ` set u" and "map_of (set_fields u d) f = Some BNull"
  shows "map_of d f = Some BNull"
proof (cases "map_of (rev u) f")
  case None
  with assms(2) show ?thesis by (simp add: map_of_set_fields map_add_def)
next
  case (Some v)
  with assms(2) have "map_of (rev u) f = Some BNull"
    by (simp add: map_of_set_fields map_add_def)
  then have "(f, BNull) \<in> set u" by (auto dest: map_of_SomeD)
  with assms(1) show ?thesis by force
qed

lemma update_first_no_null:
  assumes "BNull \<notin> snd ` set u"
  shows "list_all2 (\<lambda>d d'. \<forall>f. map_of d' f = Some BNull \<longrightarrow> map_of d f = Some BNull)
     ds (update_first oid u ds)"
proof (rule list_all2_mono [OF list_all2_update_first])
  fix d d'
  assume "d' = d \<or> has_id oid d \<and> d' = set_fields u d"
  then show "\<forall>f. map_of d' f = Some BNull \<longrightarrow> map_of d f = Some BNull"
    using set_fields_no_null [OF assms] by blast
qed

text \<open>
  C4. A field the body gives as \<open>null\<close> is a field the body does not give: the route
  answers the two bodies alike, result and collection. And no update writes a null:
  document by document, a key that is null after \<open>update_task\<close> was null before.
\<close>

theorem null_field_is_omitted:
  "PUT_task now task_id (body(k \<mapsto> JNull)) c = PUT_task now task_id (body(k := None)) c
   \<and> list_all2 (\<lambda>d d'. \<forall>f. map_of d' f = Some BNull \<longrightarrow> map_of d f = Some BNull)
        (docs c) (docs (snd (update_task now task_id task_update c)))"
proof
  show "PUT_task now task_id (body(k \<mapsto> JNull)) c = PUT_task now task_id (body(k := None)) c"
    by (rule PUT_task_null)
  have strings: "BNull \<notin> snd ` set (AList.update ''last_updated'' (BStr now) (update_dict task_update))"
    by (auto dest!: set_update update_dict_strings)
  from update_task_docs_any [of now task_id task_update c]
  show "list_all2 (\<lambda>d d'. \<forall>f. map_of d' f = Some BNull \<longrightarrow> map_of d f = Some BNull)
        (docs c) (docs (snd (update_task now task_id task_update c)))"
  proof (elim disjE exE)
    assume "docs (snd (update_task now task_id task_update c)) = docs c"
    then show ?thesis by (simp add: list_all2_refl)
  next
    fix oid
    assume "docs (snd (update_task now task_id task_update c)) =
      update_first oid (AList.update ''last_updated'' (BStr now) (update_dict task_update)) (docs c)"
    then show ?thesis by (simp add: update_first_no_null [OF strings])
  qed
qed

theorem null_field_is_omitted_witness:
  "PUT_task ''2024-05-02T08:30:00'' ''000000000000000000000005''
      ([''title'' \<mapsto> JStr ''Call Ann''](''description'' \<mapsto> JNull))
      \<lparr>docs = [created_doc ''2024-05-01T10:00:00'' 5
          \<lparr>TaskBase.title = ''Write report'', description = Some ''Quarterly'', deadline = None,
           status = ''not-done''\<rparr>], calls = []\<rparr>
    = PUT_task ''2024-05-02T08:30:00'' ''000000000000000000000005''
      ([''title'' \<mapsto> JStr ''Call Ann''](''description'' := None))
      \<lparr>docs = [created_doc ''2024-05-01T10:00:00'' 5
          \<lparr>TaskBase.title = ''Write report'', description = Some ''Quarterly'', deadline = None,
           status = ''not-done''\<rparr>], calls = []\<rparr>
   \<and> list_all2 (\<lambda>d d'. \<forall>f. map_of d' f = Some BNull \<longrightarrow> map_of d f = Some BNull)
      (docs \<lparr>docs = [created_doc ''2024-05-01T10:00:00'' 5
          \<lparr>TaskBase.title = ''Write report'', description = Some ''Quarterly'', deadline = None,
           status = ''not-done''\<rparr>], calls = []\<rparr>)
      (docs (snd (update_task ''2024-05-02T08:30:00'' ''000000000000000000000005''
          \<lparr>TaskUpdate.title = Some ''Call Ann'', description = None, deadline = None, status = None,
           fields_set = [''title'', ''description'']\<rparr>
          \<lparr>docs = [created_doc ''2024-05-01T10:00:00'' 5
            \<lparr>TaskBase.title = ''Write report'', description = Some ''Quarterly'', deadline = None,
             status = ''not-done''\<rparr>], calls = []\<rparr>)))"
  by (rule null_field_is_omitted)

subsection \<open>Reading back what was created or stored\<close>

lemma str_oid_5: "str_oid 5 = ''000000000000000000000005''"
  by (simp add: str_oid_def hexchar_def hexlify_numeral)

lemma get_task_found:
  assumes "find (has_id oid) (docs c) = Some d"
  shows "get_task (str_oid oid) c = (task_helper d, called (FindOne oid) c)"
proof -
  from assms have "has_id oid d" by (auto dest: find_Some_holds)
  then have "d \<noteq> []" by (auto simp: has_id_def)
  with assms show ?thesis
    by (simp add: get_task_def is_valid_str_oid ObjectId_str_oid find_one_def)
qed

lemma fst_GET_task: "fst (GET_task task_id c) = response_model (fst (get_task task_id c))"
  by (simp add: GET_task_def split: prod.splits)

text \<open>
  C9. After a creation (the payload validates, the object id is new), fetching by the
  \<open>_id\<close> of the returned dict gives the very dict \<open>create_task\<close> returned; through the
  routes, \<open>GET_task\<close> on the \<open>id\<close> of the task \<open>POST_tasks\<close> answered gives that task.
\<close>

theorem create_then_get:
  assumes valid: "validate_TaskCreate body = Inr task"
    and fresh: "find (has_id new_id) (docs c) = None"
  shows "fst (create_task now new_id task c) = Inr (created_response now new_id task)
    \<and> map_of (created_response now new_id task) ''_id'' = Some (BStr (str_oid new_id))
    \<and> fst (get_task (str_oid new_id) (snd (create_task now new_id task c)))
        = fst (create_task now new_id task c)
    \<and> (\<exists>r. fst (POST_tasks now new_id body c) = Inr r
        \<and> fst (GET_task (id' r) (snd (POST_tasks now new_id body c))) = Inr r)"
proof -
  let ?c' = "snd (create_task now new_id task c)"
  have created: "fst (create_task now new_id task c) = Inr (created_response now new_id task)"
    by (simp add: create_task_fresh [OF fresh] task_helper_created)
  have stored: "find (has_id new_id) (docs ?c') = Some (created_doc now new_id task)"
    by (rule create_task_stored [OF fresh])
  have got: "fst (get_task (str_oid new_id) ?c') = Inr (created_response now new_id task)"
    by (simp add: get_task_found [OF stored] task_helper_created)
  have post: "POST_tasks now new_id body c = (response_model (fst (create_task now new_id task c)), ?c')"
    by (simp add: POST_tasks_def valid split: prod.splits)
  obtain r where r: "validate_TaskResponse (created_response now new_id task) = Inr r"
    and idr: "id' r = str_oid new_id"
    using validate_created_response [OF validate_TaskCreate_Inr(1,2) [OF valid]] by simp
  have "fst (GET_task (id' r) (snd (POST_tasks now new_id body c))) = Inr r"
    using got by (simp add: post idr fst_GET_task r)
  moreover have "fst (POST_tasks now new_id body c) = Inr r"
    by (simp add: post created r)
  ultimately show ?thesis
    using created got by (auto simp: created_response_def)
qed

theorem create_then_get_witness:
  "fst (get_task ''000000000000000000000005''
        (snd (create_task ''2024-05-01T10:00:00'' 5
           \<lparr>TaskBase.title = ''Write report'', description = None, deadline = None,
            status = ''not-done''\<rparr> empty_collection)))
     = fst (create_task ''2024-05-01T10:00:00'' 5
           \<lparr>TaskBase.title = ''Write report'', description = None, deadline = None,
            status = ''not-done''\<rparr> empty_collection)
   \<and> (\<exists>r. fst (POST_tasks ''2024-05-01T10:00:00'' 5 [''title'' \<mapsto> JStr ''Write report'']
              empty_collection) = Inr r
        \<and> fst (GET_task (id' r)
              (snd (POST_tasks ''2024-05-01T10:00:00'' 5 [''title'' \<mapsto> JStr ''Write report'']
                 empty_collection))) = Inr r)"
proof -
  have valid: "validate_TaskCreate [''title'' \<mapsto> JStr ''Write report''] =
      Inr \<lparr>TaskBase.title = ''Write report'', description = None, deadline = None, status = ''not-done''\<rparr>"
    by (simp add: validate_TaskCreate_def title_length_def)
  have fresh: "find (has_id 5) (docs empty_collection) = None"
    by (simp add: empty_collection_def)
  from create_then_get [OF valid fresh, of "''2024-05-01T10:00:00''"]
  show ?thesis unfolding str_oid_5 by blast
qed

lemma find_unique:
  assumes "distinct (map (\<lambda>d. map_of d ''_id'') ds)" and "d \<in> set ds" and "has_id oid d"
  shows "find (has_id oid) ds = Some d"
  using assms
proof (induction ds)
  case Nil
  then show ?case by simp
next
  case (Cons e ds)
  show ?case
  proof (cases "has_id oid e")
    case True
    show ?thesis
    proof (cases "d = e")
      case True
      with \<open>has_id oid e\<close> show ?thesis by simp
    next
      case False
      with Cons.prems have "d \<in> set ds" by simp
      with Cons.prems True have False by (force simp: has_id_def)
      then show ?thesis ..
    qed
  next
    case False
    with Cons show ?thesis by auto
  qed
qed

text \<open>
  C10. A document of the collection whose \<open>_id\<close> is an object id and which
  \<open>task_helper\<close> serializes, in a collection whose ids are unique: the \<open>_id\<close> of the
  serialized dict is the string of the object id, \<open>ObjectId.is_valid\<close> accepts it, and
  \<open>get_task\<close> on it returns that dict and leaves the documents as they were.
\<close>

theorem served_id_usable:
  assumes stored: "d \<in> set (docs c)" and oid: "map_of d ''_id'' = Some (BOid oid)"
    and unique: "unique_ids c" and serialized: "task_helper d = Inr r"
  shows "map_of r ''_id'' = Some (BStr (str_oid oid))
    \<and> is_valid (str_oid oid)
    \<and> fst (get_task (str_oid oid) c) = Inr r
    \<and> docs (snd (get_task (str_oid oid) c)) = docs c"
proof -
  have "find (has_id oid) (docs c) = Some d"
    using unique stored oid by (simp add: unique_ids_def find_unique has_id_def)
  then have "get_task (str_oid oid) c = (Inr r, called (FindOne oid) c)"
    by (simp add: get_task_found serialized)
  moreover have "map_of r ''_id'' = Some (BStr (str_oid oid))"
    using serialized oid by (auto simp: task_helper_def split: option.splits)
  ultimately show ?thesis by (simp add: is_valid_str_oid)
qed

theorem served_id_usable_witness:
  "is_valid ''000000000000000000000005''
   \<and> fst (get_task ''000000000000000000000005''
        \<lparr>docs = [created_doc ''2024-05-01T10:00:00'' 5
            \<lparr>TaskBase.title = ''Write report'', description = None, deadline = None,
             status = ''not-done''\<rparr>], calls = []\<rparr>)
     = Inr (created_response ''2024-05-01T10:00:00'' 5
            \<lparr>TaskBase.title = ''Write report'', description = None, deadline = None,
             status = ''not-done''\<rparr>)"
proof -
  let ?task = "\<lparr>TaskBase.title = ''Write report'', description = None, deadline = None,
             status = ''not-done''\<rparr>"
  let ?d = "created_doc ''2024-05-01T10:00:00'' 5 ?task"
  let ?c = "\<lparr>docs = [?d], calls = []\<rparr>"
  have stored: "?d \<in> set (docs ?c)" by simp
  have oid: "map_of ?d ''_id'' = Some (BOid 5)" by (simp add: created_doc_def)
  have unique: "unique_ids ?c" by (simp add: unique_ids_def)
  have serialized: "task_helper ?d = Inr (created_response ''2024-05-01T10:00:00'' 5 ?task)"
    by (rule task_helper_created)
  from served_id_usable [OF stored oid unique serialized]
  show ?thesis unfolding str_oid_5 by blast
qed

subsection \<open>What every run of the service preserves\<close>

lemma list_all_weaken:
  assumes "list_all P ds" and "\<And>d. P d \<Longrightarrow> Q d"
  shows "list_all Q ds"
  using assms by (induction ds) auto

lemma list_all_update_first:
  assumes keep: "\<And>d. P d \<Longrightarrow> Q d" and upd: "\<And>d. P d \<Longrightarrow> Q (set_fields u d)"
  shows "list_all P ds \<Longrightarrow> list_all Q (update_first oid u ds)"
  by (induction ds) (auto intro: keep upd list_all_weaken)

lemma list_all_delete_first:
  assumes keep: "\<And>d. P d \<Longrightarrow> Q d"
  shows "list_all P ds \<Longrightarrow> list_all Q (delete_first oid ds)"
  by (induction ds) (auto intro: keep list_all_weaken)

lemma POST_tasks_docs:
  "docs (snd (POST_tasks now new_id body c)) = docs c
   \<or> (\<exists>task. validate_TaskCreate body = Inr task
        \<and> find (has_id new_id) (docs c) = None
        \<and> docs (snd (POST_tasks now new_id body c)) = docs c @ [created_doc now new_id task])"
proof (cases "validate_TaskCreate body")
  case (Inl e)
  then show ?thesis by (simp add: POST_tasks_def)
next
  case (Inr task)
  show ?thesis
  proof (cases "find (has_id new_id) (docs c)")
    case None
    with Inr show ?thesis
      by (simp add: POST_tasks_def create_task_fresh [OF None])
  next
    case (Some d)
    with Inr show ?thesis
      by (simp add: POST_tasks_def create_task_def insert_one_def Let_def)
  qed
qed

lemma PUT_task_docs:
  "docs (snd (PUT_task now task_id body c)) = docs c
   \<or> (\<exists>u oid. validate_TaskUpdate body = Inr u
        \<and> docs (snd (PUT_task now task_id body c)) =
            update_first oid (supplied body @ [(''last_updated'', BStr now)]) (docs c))"
proof (cases "validate_TaskUpdate body")
  case (Inl e)
  then show ?thesis by (simp add: PUT_task_def)
next
  case (Inr u)
  have same: "docs (snd (PUT_task now task_id body c)) = docs (snd (update_task now task_id u c))"
    by (simp add: PUT_task_def Inr split: prod.splits)
  show ?thesis
    using update_task_docs_any [of now task_id u c]
    by (auto simp: same Inr update_dict_validated [OF Inr] last_updated_appended)
qed

lemma delete_task_docs:
  "docs (snd (delete_task task_id c)) = docs c
   \<or> (\<exists>oid. docs (snd (delete_task task_id c)) = delete_first oid (docs c))"
  by (auto simp: delete_task_def delete_one_def split: sum.splits option.splits)

lemma get_task_docs [simp]: "docs (snd (get_task task_id c)) = docs c"
  by (simp add: get_task_def find_one_def split: sum.splits option.splits)

lemma get_tasks_docs [simp]: "docs (snd (get_tasks c)) = docs c"
  by (simp add: get_tasks_def find_all_def)

lemma GET_task_docs [simp]: "docs (snd (GET_task task_id c)) = docs c"
  by (simp add: GET_task_def split: prod.splits) (metis get_task_docs snd_conv)

lemma GET_tasks_docs [simp]: "docs (snd (GET_tasks c)) = docs c"
  by (simp add: GET_tasks_def split: prod.splits) (metis get_tasks_docs snd_conv)

lemma serve_preserves:
  assumes inv: "list_all P (docs c)"
    and keep: "\<And>d. P d \<Longrightarrow> Q d"
    and created: "\<And>now new_id body task.
        r = CreateTask now new_id body \<Longrightarrow> validate_TaskCreate body = Inr task
        \<Longrightarrow> find (has_id new_id) (docs c) = None \<Longrightarrow> Q (created_doc now new_id task)"
    and updated: "\<And>now task_id body u d.
        r = UpdateTask now task_id body \<Longrightarrow> validate_TaskUpdate body = Inr u \<Longrightarrow> P d
        \<Longrightarrow> Q (set_fields (supplied body @ [(''last_updated'', BStr now)]) d)"
  shows "list_all Q (docs (serve r c))"
proof -
  have same: "list_all Q (docs c)"
    using inv keep by (rule list_all_weaken)
  show ?thesis
  proof (cases r)
    case ListTasks
    with same show ?thesis by simp
  next
    case (GetTask task_id)
    with same show ?thesis by simp
  next
    case (CreateTask now new_id body)
    show ?thesis
      using POST_tasks_docs [of now new_id body c] same created [OF CreateTask]
      by (auto simp: CreateTask)
  next
    case (UpdateTask now task_id body)
    from PUT_task_docs [of now task_id body c] show ?thesis
    proof (elim disjE exE conjE)
      assume "docs (snd (PUT_task now task_id body c)) = docs c"
      with same show ?thesis by (simp add: UpdateTask)
    next
      fix u oid
      assume u: "validate_TaskUpdate body = Inr u"
        and docs': "docs (snd (PUT_task now task_id body c)) =
          update_first oid (supplied body @ [(''last_updated'', BStr now)]) (docs c)"
      have "list_all Q (update_first oid (supplied body @ [(''last_updated'', BStr now)]) (docs c))"
        using keep updated [OF UpdateTask u] inv by (rule list_all_update_first)
      with docs' show ?thesis by (simp add: UpdateTask)
    qed
  next
    case (DeleteTask task_id)
    from delete_task_docs [of task_id c] show ?thesis
    proof (elim disjE exE)
      assume "docs (snd (delete_task task_id c)) = docs c"
      with same show ?thesis by (simp add: DeleteTask DELETE_task_def)
    next
      fix oid
      assume docs': "docs (snd (delete_task task_id c)) = delete_first oid (docs c)"
      have "list_all Q (delete_first oid (docs c))"
        using keep inv by (rule list_all_delete_first)
      with docs' show ?thesis by (simp add: DeleteTask DELETE_task_def)
    qed
  qed
qed

lemma validate_TaskUpdate_status:
  assumes "validate_TaskUpdate body = Inr u" and "body ''status'' = Some (JStr s)"
  shows "status_pattern s"
  using assms
  by (auto simp: validate_TaskUpdate_def split: sum.splits if_splits)

lemma status_ok_created:
  "validate_TaskCreate body = Inr task \<Longrightarrow> status_ok (created_doc now new_id task)"
  by (simp add: status_ok_def created_doc_def validate_TaskCreate_Inr)

lemma status_ok_updated:
  assumes "validate_TaskUpdate body = Inr u" and "status_ok d"
  shows "status_ok (set_fields (supplied body @ [(''last_updated'', BStr now)]) d)"
  using assms validate_TaskUpdate_status [OF assms(1)]
  by (auto simp: status_ok_def map_of_updated field_names_def split: option.splits json.splits bson.splits)

lemma status_ok_serve: "list_all status_ok (docs c) \<Longrightarrow> list_all status_ok (docs (serve r c))"
  by (rule serve_preserves [where P = status_ok and Q = status_ok])
    (auto intro: status_ok_created status_ok_updated)

text \<open>
  C7. The routes keep every stored status within the four values of the pattern: a
  collection whose documents all have such a status still has after any run of
  requests, so every collection reached from the empty one has; the validator of a
  creation only passes such a status, and the validator of an update passes one or
  none.
\<close>

theorem status_always_enumerated:
  "(list_all status_ok (docs c) \<longrightarrow> list_all status_ok (docs (run rs c)))
   \<and> list_all status_ok (docs (run rs empty_collection))
   \<and> (validate_TaskCreate body = Inr task \<longrightarrow> status_pattern (TaskBase.status task))
   \<and> (validate_TaskUpdate body' = Inr task_update \<longrightarrow>
        (case TaskUpdate.status task_update of None \<Rightarrow> True | Some s \<Rightarrow> status_pattern s))"
proof -
  have run: "list_all status_ok (docs c) \<Longrightarrow> list_all status_ok (docs (run rs c))" for c
    by (induction rs arbitrary: c) (simp_all add: status_ok_serve)
  have upd: "case TaskUpdate.status task_update of None \<Rightarrow> True | Some s \<Rightarrow> status_pattern s"
    if "validate_TaskUpdate body' = Inr task_update"
    using that
    by (auto simp: validate_TaskUpdate_def split: sum.splits option.splits dest: optional_str_Inr_Some)
  show ?thesis
    using run [of c] run [of empty_collection] upd
    by (auto simp: empty_collection_def validate_TaskCreate_Inr)
qed

theorem status_always_enumerated_witness:
  "list_all status_ok
     (docs (run [CreateTask ''2024-05-01T12:00:00'' 6 [''title'' \<mapsto> JStr ''Call Ann''],
                 UpdateTask ''2024-05-02T08:30:00'' ''000000000000000000000005''
                   [''status'' \<mapsto> JStr ''done'']]
        \<lparr>docs = [created_doc ''2024-05-01T10:00:00'' 5
            \<lparr>TaskBase.title = ''Write report'', description = None, deadline = None,
             status = ''not-done''\<rparr>], calls = []\<rparr>))
   \<and> list_all status_ok
     (docs (run [CreateTask ''2024-05-01T12:00:00'' 6 [''title'' \<mapsto> JStr ''Call Ann''],
                 UpdateTask ''2024-05-02T08:30:00'' ''000000000000000000000005''
                   [''status'' \<mapsto> JStr ''done'']] empty_collection))
   \<and> status_pattern (TaskBase.status
        \<lparr>TaskBase.title = ''Write report'', description = None, deadline = None,
         status = ''not-done''\<rparr>)
   \<and> (case TaskUpdate.status
         \<lparr>TaskUpdate.title = None, description = None, deadline = None, status = Some ''done'',
          fields_set = [''status'']\<rparr>
       of None \<Rightarrow> True | Some s \<Rightarrow> status_pattern s)"
proof -
  let ?c = "\<lparr>docs = [created_doc ''2024-05-01T10:00:00'' 5
            \<lparr>TaskBase.title = ''Write report'', description = None, deadline = None,
             status = ''not-done''\<rparr>], calls = []\<rparr>"
  have inv: "list_all status_ok (docs ?c)"
    by (simp add: status_ok_def created_doc_def status_pattern_def)
  have create: "validate_TaskCreate [''title'' \<mapsto> JStr ''Write report''] =
      Inr \<lparr>TaskBase.title = ''Write report'', description = None, deadline = None, status = ''not-done''\<rparr>"
    by (simp add: validate_TaskCreate_def title_length_def)
  have update: "validate_TaskUpdate [''status'' \<mapsto> JStr ''done''] =
      Inr \<lparr>TaskUpdate.title = None, description = None, deadline = None, status = Some ''done'',
          fields_set = [''status'']\<rparr>"
    by (simp add: validate_TaskUpdate_def field_names_def status_pattern_def)
  from status_always_enumerated
      [where c = ?c
        and rs = "[CreateTask ''2024-05-01T12:00:00'' 6 [''title'' \<mapsto> JStr ''Call Ann''],
                   UpdateTask ''2024-05-02T08:30:00'' ''000000000000000000000005''
                   [''status'' \<mapsto> JStr ''done'']]"
        and body = "[''title'' \<mapsto> JStr ''Write report'']"
        and body' = "[''status'' \<mapsto> JStr ''done'']"]
    inv create update
  show ?thesis by blast
qed

lemma str_le_refl: "str_le x x"
  by (induction x) auto

lemma str_le_trans: "str_le x y \<Longrightarrow> str_le y z \<Longrightarrow> str_le x z"
proof (induction x y arbitrary: z rule: str_le.induct)
  case (1 ys)
  show ?case by simp
next
  case (2 x xs)
  then show ?case by simp
next
  case (3 x xs y ys)
  then show ?case by (cases z) auto
qed

lemma stamps_okD:
  assumes "stamps_ok le d"
  shows "\<exists>a b. map_of d ''created_at'' = Some (BStr a)
    \<and> map_of d ''last_updated'' = Some (BStr b) \<and> le a b"
proof (cases "map_of d ''created_at''")
  case None
  with assms show ?thesis by (simp add: stamps_ok_def)
next
  case (Some x)
  show ?thesis
  proof (cases "map_of d ''last_updated''")
    case None
    with assms Some show ?thesis by (cases x) (simp_all add: stamps_ok_def)
  next
    case (Some y)
    with assms \<open>map_of d ''created_at'' = Some x\<close> show ?thesis
      by (cases x; cases y) (simp_all add: stamps_ok_def)
  qed
qed

lemma stamps_step:
  assumes refl: "\<And>x. le x x"
    and trans: "\<And>x y z. le x y \<Longrightarrow> le y z \<Longrightarrow> le x z"
    and later: "\<forall>t \<in> set (clock r). \<forall>t' \<in> set ts. le t t'"
    and inv: "list_all (\<lambda>d. stamps_ok le d \<and> (\<forall>t \<in> set (clock r @ ts). not_after le t d)) (docs c)"
  shows "list_all (\<lambda>d. stamps_ok le d \<and> (\<forall>t \<in> set ts. not_after le t d)) (docs (serve r c))"
  using inv
proof (rule serve_preserves)
  fix d
  assume "stamps_ok le d \<and> (\<forall>t \<in> set (clock r @ ts). not_after le t d)"
  then show "stamps_ok le d \<and> (\<forall>t \<in> set ts. not_after le t d)" by simp
next
  fix now new_id body task
  assume r: "r = CreateTask now new_id body"
  show "stamps_ok le (created_doc now new_id task)
      \<and> (\<forall>t \<in> set ts. not_after le t (created_doc now new_id task))"
    using later refl by (simp add: r stamps_ok_def not_after_def created_doc_def)
next
  fix now task_id body u d
  let ?d' = "set_fields (supplied body @ [(''last_updated'', BStr now)]) d"
  assume r: "r = UpdateTask now task_id body"
    and d: "stamps_ok le d \<and> (\<forall>t \<in> set (clock r @ ts). not_after le t d)"
  from d obtain a b where a: "map_of d ''created_at'' = Some (BStr a)"
    and b: "map_of d ''last_updated'' = Some (BStr b)" and ab: "le a b"
    using stamps_okD [of le d] by blast
  from d b have "le b now"
    by (simp add: r not_after_def)
  with ab have "le a now" by (rule trans)
  moreover have "map_of ?d' ''created_at'' = Some (BStr a)"
    by (simp add: map_of_updated field_names_def a)
  moreover have "map_of ?d' ''last_updated'' = Some (BStr now)"
    by (simp add: map_of_updated)
  ultimately show "stamps_ok le ?d' \<and> (\<forall>t \<in> set ts. not_after le t ?d')"
    using later by (simp add: r stamps_ok_def not_after_def)
qed

text \<open>
  C8. Let \<open>le\<close> be reflexive and transitive, and let the clock's readings along a run
  be ordered by it (the clock does not run backwards). If in every document of the
  collection \<open>created_at\<close> is not after \<open>last_updated\<close>, and \<open>last_updated\<close> is not after
  any reading of the run, then after the run \<open>created_at\<close> is not after \<open>last_updated\<close>
  in every document. The empty collection satisfies both conditions.
\<close>

theorem created_at_before_last_updated:
  assumes refl: "\<And>x. le x x"
    and trans: "\<And>x y z. le x y \<Longrightarrow> le y z \<Longrightarrow> le x z"
    and clock: "sorted_wrt le (clock_readings rs)"
    and inv: "list_all (stamps_ok le) (docs c)"
    and past: "list_all (\<lambda>d. \<forall>t \<in> set (clock_readings rs). not_after le t d) (docs c)"
  shows "list_all (stamps_ok le) (docs (run rs c))"
proof -
  have "list_all (\<lambda>d. stamps_ok le d \<and> (\<forall>t \<in> set (clock_readings rs). not_after le t d)) (docs c)
      \<Longrightarrow> sorted_wrt le (clock_readings rs)
      \<Longrightarrow> list_all (stamps_ok le) (docs (run rs c))" for c
  proof (induction rs arbitrary: c)
    case Nil
    then show ?case by (simp add: list_all_iff)
  next
    case (Cons r rs)
    have later: "\<forall>t \<in> set (clock r). \<forall>t' \<in> set (clock_readings rs). le t t'"
      using Cons.prems(2) by (auto simp: clock_readings_def sorted_wrt_append)
    have sorted: "sorted_wrt le (clock_readings rs)"
      using Cons.prems(2) by (simp add: clock_readings_def sorted_wrt_append)
    have "list_all (\<lambda>d. stamps_ok le d \<and> (\<forall>t \<in> set (clock_readings rs). not_after le t d))
        (docs (serve r c))"
      using refl trans later
    proof (rule stamps_step)
      show "list_all (\<lambda>d. stamps_ok le d \<and> (\<forall>t \<in> set (clock r @ clock_readings rs). not_after le t d))
          (docs c)"
        using Cons.prems(1) by (simp add: clock_readings_def)
    qed
    then have "list_all (stamps_ok le) (docs (run rs (serve r c)))"
      using sorted by (rule Cons.IH)
    then show ?case by simp
  qed
  moreover have "list_all (\<lambda>d. stamps_ok le d \<and> (\<forall>t \<in> set (clock_readings rs). not_after le t d)) (docs c)"
    using inv past by (simp add: list_all_iff)
  ultimately show ?thesis using clock by blast
qed

theorem created_at_before_last_updated_witness:
  "list_all (stamps_ok str_le)
     (docs (run [CreateTask ''2024-05-01T10:00:00'' 5 [''title'' \<mapsto> JStr ''Write report''],
                 UpdateTask ''2024-05-02T08:30:00'' ''000000000000000000000005''
                   [''status'' \<mapsto> JStr ''done'']]
            empty_collection))"
proof (rule created_at_before_last_updated)
  show "str_le x x" for x by (rule str_le_refl)
  show "str_le x y \<Longrightarrow> str_le y z \<Longrightarrow> str_le x z" for x y z by (rule str_le_trans)
  show "sorted_wrt str_le
     (clock_readings [CreateTask ''2024-05-01T10:00:00'' 5 [''title'' \<mapsto> JStr ''Write report''],
                 UpdateTask ''2024-05-02T08:30:00'' ''000000000000000000000005''
                   [''status'' \<mapsto> JStr ''done'']])"
    by (simp add: clock_readings_def)
  show "list_all (stamps_ok str_le) (docs empty_collection)"
    by (simp add: empty_collection_def)
  show "list_all (\<lambda>d. \<forall>t \<in> set (clock_readings
        [CreateTask ''2024-05-01T10:00:00'' 5 [''title'' \<mapsto> JStr ''Write report''],
         UpdateTask ''2024-05-02T08:30:00'' ''000000000000000000000005''
           [''status'' \<mapsto> JStr ''done'']]). not_after str_le t d) (docs empty_collection)"
    by (simp add: empty_collection_def)
qed

text \<open>The unique index holds along every run: creation refuses an id that is taken.\<close>

lemma ids_update_first:
  assumes "\<And>d. map_of (set_fields u d) ''_id'' = map_of d ''_id''"
  shows "map (\<lambda>d. map_of d ''_id'') (update_first oid u ds) = map (\<lambda>d. map_of d ''_id'') ds"
  by (induction ds) (simp_all add: assms)

lemma distinct_delete_first:
  "distinct (map f ds) \<Longrightarrow> distinct (map f (delete_first oid ds))"
proof (induction ds)
  case Nil
  show ?case by simp
next
  case (Cons d ds)
  have "set (delete_first oid ds) \<subseteq> set ds" for ds
    by (induction ds) auto
  with Cons show ?case by auto
qed

lemma unique_ids_serve:
  assumes "unique_ids c"
  shows "unique_ids (serve r c)"
proof (cases r)
  case ListTasks
  with assms show ?thesis by (simp add: unique_ids_def)
next
  case (GetTask task_id)
  with assms show ?thesis by (simp add: unique_ids_def)
next
  case (CreateTask now new_id body)
  from POST_tasks_docs [of now new_id body c] show ?thesis
  proof (elim disjE exE conjE)
    assume "docs (snd (POST_tasks now new_id body c)) = docs c"
    with assms show ?thesis by (simp add: CreateTask unique_ids_def)
  next
    fix task
    assume fresh: "find (has_id new_id) (docs c) = None"
      and docs': "docs (snd (POST_tasks now new_id body c)) = docs c @ [created_doc now new_id task]"
    from fresh have "Some (BOid new_id) \<notin> (\<lambda>d. map_of d ''_id'') ` set (docs c)"
      by (auto simp: find_None_iff has_id_def)
    with assms docs' show ?thesis
      by (simp add: CreateTask unique_ids_def created_doc_def)
  qed
next
  case (UpdateTask now task_id body)
  from PUT_task_docs [of now task_id body c] show ?thesis
  proof (elim disjE exE conjE)
    assume "docs (snd (PUT_task now task_id body c)) = docs c"
    with assms show ?thesis by (simp add: UpdateTask unique_ids_def)
  next
    fix u oid
    assume docs': "docs (snd (PUT_task now task_id body c)) =
        update_first oid (supplied body @ [(''last_updated'', BStr now)]) (docs c)"
    have "map (\<lambda>d. map_of d ''_id'')
        (update_first oid (supplied body @ [(''last_updated'', BStr now)]) (docs c))
        = map (\<lambda>d. map_of d ''_id'') (docs c)"
      by (rule ids_update_first) (simp add: map_of_updated field_names_def)
    with assms docs' show ?thesis by (simp add: UpdateTask unique_ids_def)
  qed
next
  case (DeleteTask task_id)
  from delete_task_docs [of task_id c] assms show ?thesis
    by (auto simp: DeleteTask DELETE_task_def unique_ids_def intro: distinct_delete_first)
qed

lemma unique_ids_run: "unique_ids c \<Longrightarrow> unique_ids (run rs c)"
  by (induction rs arbitrary: c) (simp_all add: unique_ids_serve)

lemma unique_ids_reached: "unique_ids (run rs empty_collection)"
  by (rule unique_ids_run) (simp add: unique_ids_def empty_collection_def)

end
